theory Spec2Isabelle
  imports Main
begin

section \<open>JavaScript values used by the plugin\<close>

text \<open>
  The plugin (\<^verbatim>\<open>src/plugin.js\<close>) is the class \<^verbatim>\<open>HlsQualitySelectorPlugin\<close>. Its
  numbers are pixel counts and bit rates, modelled as \<open>int\<close>; a numeric property that
  may be absent (\<^verbatim>\<open>undefined\<close>) is an \<open>int option\<close>. A quality value, as stored in a
  menu entry and passed to \<^verbatim>\<open>setQuality\<close>, is \<^verbatim>\<open>undefined\<close>, a number, or the string
  \<^verbatim>\<open>'auto'\<close>, the only string the code ever puts into a value.
\<close>

datatype jsval = Undefined | Number int | StrAuto

datatype error = TypeError

datatype 'a completion = Return 'a | Throw error

text \<open>\<^verbatim>\<open>!!v\<close>: \<^verbatim>\<open>undefined\<close> and \<^verbatim>\<open>0\<close> are falsy, the non-empty string is truthy.\<close>

fun truthy :: "jsval \<Rightarrow> bool" where
  "truthy Undefined = False"
| "truthy (Number n) = (n \<noteq> 0)"
| "truthy StrAuto = True"

text \<open>A numeric property read from an object: absent gives \<^verbatim>\<open>undefined\<close>.\<close>

fun js_of :: "int option \<Rightarrow> jsval" where
  "js_of None = Undefined"
| "js_of (Some n) = Number n"

text \<open>
  \<^verbatim>\<open>a < b\<close> and \<^verbatim>\<open>a > b\<close>: both operands go through ToNumber unless both are strings.
  \<^verbatim>\<open>undefined\<close> and \<^verbatim>\<open>'auto'\<close> become NaN, and every comparison with NaN is false; two
  equal strings are not less than each other.
\<close>

fun js_lt :: "jsval \<Rightarrow> jsval \<Rightarrow> bool" where
  "js_lt (Number a) (Number b) = (a < b)"
| "js_lt _ _ = False"

definition js_gt :: "jsval \<Rightarrow> jsval \<Rightarrow> bool" where
  "js_gt a b = js_lt b a"

text \<open>\<^verbatim>\<open>a <= b\<close> is \<^verbatim>\<open>!(b < a)\<close> unless an operand is NaN, where it is false.\<close>

fun js_le :: "jsval \<Rightarrow> jsval \<Rightarrow> bool" where
  "js_le (Number a) (Number b) = (a \<le> b)"
| "js_le _ _ = False"

subsection \<open>Number to string\<close>

text \<open>
  \<^verbatim>\<open>Number.prototype.toString\<close>, string concatenation and property keys all render an
  integer in decimal (exact for magnitudes below \<open>10^21\<close>, far above any pixel count or
  bit rate).
\<close>

definition digit_char :: "nat \<Rightarrow> char" where
  "digit_char d = ''0123456789'' ! (d mod 10)"

fun dec_digits :: "nat \<Rightarrow> string" where
  "dec_digits n = (if n < 10 then [digit_char n] else dec_digits (n div 10) @ [digit_char (n mod 10)])"

declare dec_digits.simps [simp del]

definition num_to_string :: "int \<Rightarrow> string" where
  "num_to_string i = (if i < 0 then CHR ''-'' # dec_digits (nat (- i)) else dec_digits (nat i))"

fun js_to_string :: "jsval \<Rightarrow> string" where
  "js_to_string Undefined = ''undefined''"
| "js_to_string (Number n) = num_to_string n"
| "js_to_string StrAuto = ''auto''"

subsection \<open>Plain objects as ordered property lists\<close>

text \<open>
  An object literal \<^verbatim>\<open>{}\<close> filled by assignment is an association list in insertion
  order. \<^verbatim>\<open>Object.keys\<close> lists the integer-index keys first (canonical decimal strings
  below \<open>2^32 - 1\<close>) in ascending numeric order, then the other string keys in
  insertion order.
\<close>

definition is_digit :: "char \<Rightarrow> bool" where
  "is_digit c = (c \<in> set ''0123456789'')"

definition digit_val :: "char \<Rightarrow> nat" where
  "digit_val c = of_char c - 48"

definition index_val :: "string \<Rightarrow> nat" where
  "index_val s = foldl (\<lambda>a c. 10 * a + digit_val c) 0 s"

definition is_array_index :: "string \<Rightarrow> bool" where
  "is_array_index s =
     (s \<noteq> [] \<and> list_all is_digit s \<and> (s = ''0'' \<or> hd s \<noteq> CHR ''0'') \<and> index_val s < 2 ^ 32 - 1)"

type_synonym 'a js_object = "(string \<times> 'a) list"

text \<open>\<^verbatim>\<open>obj[key]\<close> on own properties.\<close>

definition js_get :: "'a js_object \<Rightarrow> string \<Rightarrow> 'a option" where
  "js_get obj key = map_of obj key"

text \<open>\<^verbatim>\<open>obj[key] = v\<close>: an existing key keeps its position, a new key goes last.\<close>

fun js_set :: "'a js_object \<Rightarrow> string \<Rightarrow> 'a \<Rightarrow> 'a js_object" where
  "js_set [] key v = [(key, v)]"
| "js_set ((k, w) # obj) key v = (if k = key then (k, v) # obj else (k, w) # js_set obj key v)"

text \<open>The own properties in the order of \<^verbatim>\<open>Object.keys\<close>.\<close>

definition own_entries :: "'a js_object \<Rightarrow> (string \<times> 'a) list" where
  "own_entries obj =
     sort_key (\<lambda>e. index_val (fst e)) (filter (\<lambda>e. is_array_index (fst e)) obj)
     @ filter (\<lambda>e. \<not> is_array_index (fst e)) obj"

subsection \<open>Array.prototype.sort with a comparator\<close>

text \<open>
  ECMAScript fixes the result of \<^verbatim>\<open>sort\<close> only for a consistent comparator: the stable
  sorted permutation. For any other comparator the order is implementation-defined. The
  model is the insertion sort of the array in place: each element moves left past the
  elements that compare greater than it. \<open>ins\<close> works on the sorted prefix held in
  reverse. For a consistent comparator this is the result of every conforming engine.
  For an inconsistent one (here: a value that is \<^verbatim>\<open>undefined\<close> among numbers) engines
  differ from each other and from this model, for instance a binary insertion sort on
  four or more entries; the model agrees with them where every comparison of neighbours
  returns 0, since then no sort moves anything.
\<close>

fun ins :: "('a \<Rightarrow> 'a \<Rightarrow> int) \<Rightarrow> 'a \<Rightarrow> 'a list \<Rightarrow> 'a list" where
  "ins cmp x [] = [x]"
| "ins cmp x (y # ys) = (if cmp y x > 0 then y # ins cmp x ys else x # y # ys)"

definition array_sort :: "('a \<Rightarrow> 'a \<Rightarrow> int) \<Rightarrow> 'a list \<Rightarrow> 'a list" where
  "array_sort cmp xs = rev (foldl (\<lambda>acc x. ins cmp x acc) [] xs)"

section \<open>Data model\<close>

text \<open>
  A rendition is an element of the engine's quality-level list. The code reads
  \<^verbatim>\<open>width\<close>, \<^verbatim>\<open>height\<close> and \<^verbatim>\<open>bandwidth\<close>, each a number or absent, and writes
  \<^verbatim>\<open>enabled\<close>.
\<close>

record rendition =
  width :: "int option"
  height :: "int option"
  bandwidth :: "int option"
  enabled :: bool

text \<open>
  A manifest rendition description, as far as \<^verbatim>\<open>getBandwidthToNameMap\<close> inspects it:
  \<^verbatim>\<open>typeof playlist\<close> and \<^verbatim>\<open>typeof playlist.attributes\<close>. \<^verbatim>\<open>typeof null\<close> is
  \<^verbatim>\<open>'object'\<close>, so \<^verbatim>\<open>null\<close> is its own case.
\<close>

record attrs =
  NAME :: "string option"
  BANDWIDTH :: "int option"

datatype attributes_val = AttrNotObject | AttrNull | AttrObject attrs

datatype playlist = PlNotObject | PlNull | PlObject attributes_val

text \<open>
  The \<^verbatim>\<open>playlists\<close> property of the streaming tech, as \<^verbatim>\<open>getMasterPlaylists\<close>
  inspects it: falsy; an array of descriptions (no object \<^verbatim>\<open>master\<close>); \<^verbatim>\<open>master\<close> is
  \<^verbatim>\<open>null\<close>; or \<^verbatim>\<open>master\<close> is an object, whose \<^verbatim>\<open>playlists\<close> is an array or falsy.
\<close>

datatype playlists_val =
    NoPlaylists
  | PlaylistArray "playlist list"
  | MasterNull
  | Master "playlist list option"

record streaming =
  playlists :: playlists_val

record tech_obj =
  vhs :: "streaming option"
  hls :: "streaming option"

text \<open>
  The player: \<open>qualityLevels\<close> is \<open>None\<close> when the player has no
  \<^verbatim>\<open>qualityLevels\<close> method, otherwise the list that \<^verbatim>\<open>player.qualityLevels()\<close>
  returns (indexed by \<^verbatim>\<open>qualityList[i]\<close>, backed by \<^verbatim>\<open>levels_\<close>).
\<close>

record player =
  qualityLevels :: "rendition list option"
  tech :: tech_obj
  localize :: "string \<Rightarrow> string"

record config =
  displayCurrentQuality :: bool
  vjsIconClass :: "string option"
  placementIndex :: "int option"

text \<open>The object literal handed to \<^verbatim>\<open>getQualityMenuItem\<close>.\<close>

record item =
  label :: "string option"
  "value" :: jsval
  selected :: "bool option"

text \<open>
  \<^verbatim>\<open>ConcreteMenuItem\<close> is not part of the sources; the plugin only reads back
  \<^verbatim>\<open>.item\<close>, so a menu item is the item it was built from.
\<close>

record menu_item =
  item :: item

text \<open>
  Modelled from the spec: the button widget \<^verbatim>\<open>ConcreteButton\<close>, which is not part of
  the sources. The spec gives it an item-construction function that the plugin replaces
  (\<open>createItems\<close> is the list that function returns), a visible label, and a
  pressed state that \<^verbatim>\<open>unpressButton\<close> resets.
\<close>

record quality_button =
  classes :: "string list"
  placeholderClassName :: string
  placeholderInnerHTML :: string
  createItems :: "menu_item list"
  pressed :: bool

definition unpressButton :: "quality_button \<Rightarrow> quality_button" where
  "unpressButton b = b\<lparr>pressed := False\<rparr>"

type_synonym name_map = "string option js_object"

record plugin =
  player :: player
  config :: config
  bandwidthToNameMap :: "name_map option"
  qualityButton :: "quality_button option"
  currentQuality :: jsval

section \<open>The plugin's methods\<close>

text \<open>\<^verbatim>\<open>tech.vhs || tech.hls\<close>\<close>

definition getTechStreaming :: "plugin \<Rightarrow> streaming option" where
  "getTechStreaming this =
     (case vhs (tech (player this)) of Some s \<Rightarrow> Some s | None \<Rightarrow> hls (tech (player this)))"

text \<open>Destructuring \<^verbatim>\<open>undefined\<close> and reading a property of \<^verbatim>\<open>null\<close> throw.\<close>

definition getMasterPlaylists :: "plugin \<Rightarrow> playlist list completion" where
  "getMasterPlaylists this =
     (case getTechStreaming this of
        None \<Rightarrow> Throw TypeError
      | Some s \<Rightarrow>
          (case playlists s of
             NoPlaylists \<Rightarrow> Return []
           | PlaylistArray ps \<Rightarrow> Return ps
           | MasterNull \<Rightarrow> Throw TypeError
           | Master None \<Rightarrow> Return []
           | Master (Some ps) \<Rightarrow> Return ps))"

text \<open>
  The callback of \<^verbatim>\<open>playlists.reduce\<close>. The computed key \<^verbatim>\<open>[BANDWIDTH]\<close> is the
  string of the value, \<^verbatim>\<open>'undefined'\<close> when the attribute is absent.
\<close>

definition addPlaylist :: "name_map \<Rightarrow> playlist \<Rightarrow> name_map completion" where
  "addPlaylist acc pl =
     (case pl of
        PlNotObject \<Rightarrow> Return acc
      | PlNull \<Rightarrow> Throw TypeError
      | PlObject a \<Rightarrow>
          (case a of
             AttrNotObject \<Rightarrow> Return acc
           | AttrNull \<Rightarrow> Throw TypeError
           | AttrObject at \<Rightarrow> Return (js_set acc (js_to_string (js_of (BANDWIDTH at))) (NAME at))))"

fun reduce :: "name_map \<Rightarrow> playlist list \<Rightarrow> name_map completion" where
  "reduce acc [] = Return acc"
| "reduce acc (pl # pls) =
     (case addPlaylist acc pl of Throw e \<Rightarrow> Throw e | Return acc' \<Rightarrow> reduce acc' pls)"

text \<open>The map is built on first use and cached; a throw leaves the cache unset.\<close>

definition getBandwidthToNameMap :: "plugin \<Rightarrow> name_map completion \<times> plugin" where
  "getBandwidthToNameMap this =
     (case bandwidthToNameMap this of
        Some m \<Rightarrow> (Return m, this)
      | None \<Rightarrow>
          (case getMasterPlaylists this of
             Throw e \<Rightarrow> (Throw e, this)
           | Return pls \<Rightarrow>
               (case reduce [] pls of
                  Throw e \<Rightarrow> (Throw e, this)
                | Return m \<Rightarrow> (Return m, this\<lparr>bandwidthToNameMap := Some m\<rparr>))))"

definition setButtonInnerText :: "string \<Rightarrow> plugin \<Rightarrow> unit completion \<times> plugin" where
  "setButtonInnerText text this =
     (case qualityButton this of
        None \<Rightarrow> (Throw TypeError, this)
      | Some b \<Rightarrow> (Return (), this\<lparr>qualityButton := Some (b\<lparr>placeholderInnerHTML := text\<rparr>)\<rparr>))"

text \<open>
  \<^verbatim>\<open>createQualityButton\<close>; the first argument is the fresh \<^verbatim>\<open>new ConcreteButton(player)\<close>.
  The insertion into the control bar is the host's and is not modelled.
\<close>

definition createQualityButton :: "quality_button \<Rightarrow> plugin \<Rightarrow> plugin" where
  "createQualityButton fresh this =
     (let b1 = fresh\<lparr>classes := (if ''vjs-quality-selector'' \<in> set (classes fresh)
                                     then classes fresh
                                     else classes fresh @ [''vjs-quality-selector''])\<rparr>;
          b2 = (if \<not> displayCurrentQuality (config this)
                then b1\<lparr>placeholderClassName := placeholderClassName b1 @ '' '' @
                       (case vjsIconClass (config this) of
                          Some c \<Rightarrow> if c \<noteq> [] then c else ''vjs-icon-hd''
                        | None \<Rightarrow> ''vjs-icon-hd'')\<rparr>
                else b1\<lparr>placeholderInnerHTML := ''auto''\<rparr>)
      in this\<lparr>qualityButton := Some (b2\<lparr>classes := removeAll ''vjs-hidden'' (classes b2)\<rparr>)\<rparr>)"

text \<open>
  The constructor. \<^verbatim>\<open>_currentQuality\<close> is never initialised, so it starts
  \<^verbatim>\<open>undefined\<close>. Subscribing \<^verbatim>\<open>onAddQualityLevel\<close> to the event bus leaves the plugin's
  own state as it is.
\<close>

definition new_plugin :: "player \<Rightarrow> config \<Rightarrow> quality_button \<Rightarrow> plugin" where
  "new_plugin p options fresh =
     (let this = \<lparr>player = p, config = options, bandwidthToNameMap = None,
                  qualityButton = None, currentQuality = Undefined\<rparr>
      in if qualityLevels p \<noteq> None \<and> getTechStreaming this \<noteq> None
         then createQualityButton fresh this
         else this)"

definition getQualityMenuItem :: "item \<Rightarrow> menu_item" where
  "getQualityMenuItem i = \<lparr>item = i\<rparr>"

text \<open>
  \<^verbatim>\<open>getQualityMeta\<close>. A rendition is an object, so \<^verbatim>\<open>typeof item === 'object'\<close>
  holds and the first branch is taken exactly when \<^verbatim>\<open>!item.width || !item.height\<close>,
  that is, unless both are truthy. Both branches return \<^verbatim>\<open>value: item.bandwidth\<close>.
\<close>

definition getQualityMeta :: "rendition \<Rightarrow> plugin \<Rightarrow> item completion \<times> plugin" where
  "getQualityMeta it this =
     (if \<not> (truthy (js_of (width it)) \<and> truthy (js_of (height it)))
      then
        (case getBandwidthToNameMap this of
           (Throw e, this') \<Rightarrow> (Throw e, this')
         | (Return bw, this') \<Rightarrow>
             (let key = (if truthy (js_of (bandwidth it))
                         then js_to_string (js_of (bandwidth it))
                         else js_to_string Undefined)
              in (Return \<lparr>label = (case js_get bw key of Some l \<Rightarrow> l | None \<Rightarrow> None),
                          value = js_of (bandwidth it), selected = None\<rparr>, this')))
      else
        (let pixels = (if js_gt (js_of (width it)) (js_of (height it)) then height it else width it)
         in (Return \<lparr>label = Some (js_to_string (js_of pixels) @ ''p''),
                     value = js_of (bandwidth it), selected = None\<rparr>, this)))"

text \<open>
  The loop of \<^verbatim>\<open>getLevelItems\<close> over \<^verbatim>\<open>levels[i]\<close>, \<open>i = 0, 1, ...\<close>; \<open>items\<close> is
  the object being filled, keyed by the string of \<^verbatim>\<open>value\<close>. The stored menu items are
  objects, so \<^verbatim>\<open>!items[value]\<close> holds exactly when the key is absent.
\<close>

fun getLevelItems_loop ::
  "rendition list \<Rightarrow> menu_item js_object \<Rightarrow> plugin \<Rightarrow> menu_item js_object completion \<times> plugin" where
  "getLevelItems_loop [] items this = (Return items, this)"
| "getLevelItems_loop (level # levels) items this =
     (case getQualityMeta level this of
        (Throw e, this') \<Rightarrow> (Throw e, this')
      | (Return meta, this') \<Rightarrow>
          getLevelItems_loop levels
            (if js_get items (js_to_string (value meta)) = None
             then js_set items (js_to_string (value meta))
                    (getQualityMenuItem \<lparr>label = label meta, value = value meta, selected = None\<rparr>)
             else items)
            this')"

text \<open>\<^verbatim>\<open>Object.keys(items).map(key => items[key])\<close>\<close>

definition getLevelItems :: "rendition list \<Rightarrow> plugin \<Rightarrow> menu_item list completion \<times> plugin" where
  "getLevelItems levels this =
     (case getLevelItems_loop levels [] this of
        (Throw e, this') \<Rightarrow> (Throw e, this')
      | (Return items, this') \<Rightarrow> (Return (map snd (own_entries items)), this'))"

text \<open>
  The comparator of \<^verbatim>\<open>levelItems.sort\<close>. Menu items are objects, so the
  \<^verbatim>\<open>typeof\<close> guard never fires.
\<close>

definition compareItems :: "menu_item \<Rightarrow> menu_item \<Rightarrow> int" where
  "compareItems current next =
     (if js_lt (value (item current)) (value (item next)) then - 1
      else if js_gt (value (item current)) (value (item next)) then 1
      else 0)"

text \<open>
  \<^verbatim>\<open>onAddQualityLevel\<close>. \<open>levelItems\<close> is the local list of that name once the
  \<^verbatim>\<open>Auto\<close> entry has been pushed; \<^verbatim>\<open>player.qualityLevels()\<close> throws when the player has
  no such method.
\<close>

definition levelItems :: "plugin \<Rightarrow> menu_item list completion \<times> plugin" where
  "levelItems this =
     (case qualityLevels (player this) of
        None \<Rightarrow> (Throw TypeError, this)
      | Some levels \<Rightarrow>
          (case getLevelItems levels this of
             (Throw e, this') \<Rightarrow> (Throw e, this')
           | (Return its, this') \<Rightarrow>
               (Return (array_sort compareItems its @
                        [getQualityMenuItem \<lparr>label = Some (localize (player this') ''Auto''),
                                             value = StrAuto, selected = Some True\<rparr>]),
                this')))"

definition onAddQualityLevel :: "plugin \<Rightarrow> unit completion \<times> plugin" where
  "onAddQualityLevel this =
     (case levelItems this of
        (Throw e, this') \<Rightarrow> (Throw e, this')
      | (Return its, this') \<Rightarrow>
          (case qualityButton this' of
             None \<Rightarrow> (Return (), this')
           | Some b \<Rightarrow> (Return (), this'\<lparr>qualityButton := Some (b\<lparr>createItems := its\<rparr>)\<rparr>)))"

text \<open>
  The loop of \<^verbatim>\<open>setQuality\<close> over \<^verbatim>\<open>qualityList[i]\<close>. \<^verbatim>\<open>===\<close> on these values is
  equality.
\<close>

function setQuality_loop :: "nat \<Rightarrow> jsval \<Rightarrow> rendition list \<Rightarrow> rendition list" where
  "setQuality_loop i quality qualityList =
     (if i < length qualityList
      then
        (let r = qualityList ! i;
             pixels = (if js_gt (js_of (width r)) (js_of (height r)) then height r else width r)
         in setQuality_loop (i + 1) quality
              (qualityList[i := r\<lparr>enabled := (js_of pixels = quality \<or> quality = StrAuto)\<rparr>]))
      else qualityList)"
  by pat_completeness auto
termination
  by (relation "measure (\<lambda>(i, quality, qualityList). length qualityList - i)") auto

declare setQuality_loop.simps [simp del]

text \<open>
  \<^verbatim>\<open>setQuality\<close>. The state is returned with the completion: a throw at
  \<^verbatim>\<open>unpressButton\<close> (no button) comes after the list has been updated.
\<close>

definition setQuality :: "jsval \<Rightarrow> plugin \<Rightarrow> unit completion \<times> plugin" where
  "setQuality quality this =
     (case qualityLevels (player this) of
        None \<Rightarrow> (Throw TypeError, this)
      | Some qualityList \<Rightarrow>
          (case (if displayCurrentQuality (config this)
                 then setButtonInnerText
                        (if quality = StrAuto then js_to_string quality else js_to_string quality @ ''p'')
                        (this\<lparr>currentQuality := quality\<rparr>)
                 else (Return (), this\<lparr>currentQuality := quality\<rparr>)) of
             (Throw e, this1) \<Rightarrow> (Throw e, this1)
           | (Return u, this1) \<Rightarrow>
               (let this2 = this1\<lparr>player := (player this1)
                                   \<lparr>qualityLevels := Some (setQuality_loop 0 quality qualityList)\<rparr>\<rparr>
                in case qualityButton this2 of
                     None \<Rightarrow> (Throw TypeError, this2)
                   | Some b \<Rightarrow> (Return (), this2\<lparr>qualityButton := Some (unpressButton b)\<rparr>))))"

text \<open>\<^verbatim>\<open>this._currentQuality || 'auto'\<close>\<close>

definition getCurrentQuality :: "plugin \<Rightarrow> jsval" where
  "getCurrentQuality this = (if truthy (currentQuality this) then currentQuality this else StrAuto)"

section \<open>Notions used in the statements\<close>

text \<open>
  Follows the spec's words, not the code: the \<^emph>\<open>short side\<close> of a rendition is the
  smaller of its width and height (glossary), defined when both are present; a rendition
  without geometry has none and is never matched by a selection (spec 4.3, step 3).
\<close>

definition shortSide_spec :: "rendition \<Rightarrow> int option" where
  "shortSide_spec r = (case (width r, height r) of (Some w, Some h) \<Rightarrow> Some (min w h) | _ \<Rightarrow> None)"

text \<open>
  The list behind \<^verbatim>\<open>player.qualityLevels()\<close>, as \<^verbatim>\<open>onAddQualityLevel\<close> reads it:
  \<^verbatim>\<open>qualityList.levels_ || []\<close>.
\<close>

definition levels_of :: "plugin \<Rightarrow> rendition list" where
  "levels_of this = (case qualityLevels (player this) of Some levels \<Rightarrow> levels | None \<Rightarrow> [])"

text \<open>
  The body of the loop of \<^verbatim>\<open>setQuality\<close> for one rendition: the local
  \<^verbatim>\<open>pixels\<close>, and the assignment to \<^verbatim>\<open>enabled\<close>.
\<close>

definition pixels_of :: "rendition \<Rightarrow> int option" where
  "pixels_of r = (if js_gt (js_of (width r)) (js_of (height r)) then height r else width r)"

definition applyQuality :: "jsval \<Rightarrow> rendition \<Rightarrow> rendition" where
  "applyQuality quality r = r\<lparr>enabled := (js_of (pixels_of r) = quality \<or> quality = StrAuto)\<rparr>"

text \<open>
  The descriptions that the guard of the \<^verbatim>\<open>reduce\<close> callback rejects (not an object,
  or \<^verbatim>\<open>attributes\<close> not an object), the two \<^verbatim>\<open>null\<close> shapes that pass the guard,
  the \<^verbatim>\<open>attributes\<close> objects of a manifest, and the own keys of an object.
\<close>

definition skipped :: "playlist \<Rightarrow> bool" where
  "skipped pl = (pl = PlNotObject \<or> pl = PlObject AttrNotObject)"

definition null_entry :: "playlist \<Rightarrow> bool" where
  "null_entry pl = (pl = PlNull \<or> pl = PlObject AttrNull)"

definition attrs_of :: "playlist list \<Rightarrow> attrs list" where
  "attrs_of pls = concat (map (\<lambda>pl. case pl of PlObject (AttrObject a) \<Rightarrow> [a] | _ \<Rightarrow> []) pls)"

definition own_keys :: "'a js_object \<Rightarrow> string set" where
  "own_keys obj = fst ` set obj"

text \<open>
  What the descriptions with an \<^verbatim>\<open>attributes\<close> object write, in manifest order: the
  string of \<^verbatim>\<open>BANDWIDTH\<close> and the \<^verbatim>\<open>NAME\<close>.
\<close>

definition name_entries :: "playlist list \<Rightarrow> (string \<times> string option) list" where
  "name_entries pls = map (\<lambda>a. (js_to_string (js_of (BANDWIDTH a)), NAME a)) (attrs_of pls)"

text \<open>
  \<open>catalog_ok\<close>: the name map is cached already, or the manifest can be read and holds
  no \<^verbatim>\<open>null\<close>. \<open>cache_only this this'\<close>: the two states differ at most in the cached
  name map.
\<close>

definition catalog_ok :: "plugin \<Rightarrow> bool" where
  "catalog_ok this =
     (case bandwidthToNameMap this of
        Some m \<Rightarrow> True
      | None \<Rightarrow> (case getMasterPlaylists this of
                   Return pls \<Rightarrow> list_all (\<lambda>pl. \<not> null_entry pl) pls
                 | Throw e \<Rightarrow> False))"

definition cache_only :: "plugin \<Rightarrow> plugin \<Rightarrow> bool" where
  "cache_only this this' = (this' = this\<lparr>bandwidthToNameMap := bandwidthToNameMap this'\<rparr>)"

text \<open>
  The number in a menu item's value, the \<^verbatim>\<open>Auto\<close> entry that \<^verbatim>\<open>onAddQualityLevel\<close>
  pushes, and the values of a returned menu.
\<close>

definition num_key :: "menu_item \<Rightarrow> int" where
  "num_key x = (case value (item x) of Number n \<Rightarrow> n | _ \<Rightarrow> 0)"

definition auto_item :: "plugin \<Rightarrow> menu_item" where
  "auto_item this = getQualityMenuItem \<lparr>label = Some (localize (player this) ''Auto''),
                                        value = StrAuto, selected = Some True\<rparr>"

definition values_of :: "menu_item list completion \<Rightarrow> jsval list" where
  "values_of c = (case c of Return its \<Rightarrow> map (\<lambda>x. value (item x)) its | Throw e \<Rightarrow> [])"

section \<open>Example states\<close>

text \<open>
  A player with the given rendition list and manifest (read through \<^verbatim>\<open>tech.vhs\<close>), a
  fresh hidden button, and the plugin constructed on them with
  \<^verbatim>\<open>displayCurrentQuality\<close> on.
\<close>

definition demo_player :: "rendition list \<Rightarrow> playlists_val \<Rightarrow> player" where
  "demo_player levels manifest =
     \<lparr>qualityLevels = Some levels,
      tech = \<lparr>vhs = Some \<lparr>playlists = manifest\<rparr>, hls = None\<rparr>,
      localize = (\<lambda>s. s)\<rparr>"

definition demo_button :: quality_button where
  "demo_button = \<lparr>classes = [''vjs-hidden''], placeholderClassName = ''vjs-icon-placeholder'',
                   placeholderInnerHTML = [], createItems = [], pressed = True\<rparr>"

definition demo_plugin :: "rendition list \<Rightarrow> playlists_val \<Rightarrow> plugin" where
  "demo_plugin levels manifest =
     new_plugin (demo_player levels manifest)
       \<lparr>displayCurrentQuality = True, vjsIconClass = None, placementIndex = None\<rparr> demo_button"

text \<open>
  Rendition lists: the three renditions of the spec's example; a rendition with a width
  and no height, and one with a height and no width; one bandwidth-only rendition among
  two with geometry; two bit rates of the same frame size; bit rates above \<open>2^32\<close>
  around a rendition without bandwidth. The manifest names the bit rate 2000000 and has
  two entries without attributes.
\<close>

definition demo_levels :: "rendition list" where
  "demo_levels =
     [\<lparr>width = Some 960, height = Some 540, bandwidth = Some 1500000, enabled = True\<rparr>,
      \<lparr>width = Some 640, height = Some 360, bandwidth = Some 800000, enabled = True\<rparr>,
      \<lparr>width = Some 1920, height = Some 1080, bandwidth = Some 5000000, enabled = False\<rparr>]"

definition width_only :: "int \<Rightarrow> rendition" where
  "width_only w = \<lparr>width = Some w, height = None, bandwidth = Some 800000, enabled = False\<rparr>"

definition height_only :: "int \<Rightarrow> rendition" where
  "height_only h = \<lparr>width = None, height = Some h, bandwidth = Some 64000, enabled = True\<rparr>"

definition mixed_levels :: "rendition list" where
  "mixed_levels =
     [\<lparr>width = Some 1920, height = Some 1080, bandwidth = Some 5000000, enabled = True\<rparr>,
      \<lparr>width = None, height = None, bandwidth = Some 2000000, enabled = True\<rparr>,
      \<lparr>width = Some 640, height = Some 360, bandwidth = Some 800000, enabled = True\<rparr>]"

definition same_size_levels :: "rendition list" where
  "same_size_levels =
     [\<lparr>width = Some 1280, height = Some 720, bandwidth = Some 2000000, enabled = True\<rparr>,
      \<lparr>width = Some 1280, height = Some 720, bandwidth = Some 3000000, enabled = True\<rparr>]"

definition unsorted_levels :: "rendition list" where
  "unsorted_levels =
     [\<lparr>width = None, height = None, bandwidth = Some 5000000000, enabled = True\<rparr>,
      \<lparr>width = None, height = None, bandwidth = None, enabled = True\<rparr>,
      \<lparr>width = None, height = None, bandwidth = Some 4500000000, enabled = True\<rparr>]"

definition demo_manifest :: playlists_val where
  "demo_manifest = Master (Some [PlObject (AttrObject \<lparr>NAME = Some ''720p'', BANDWIDTH = Some 2000000\<rparr>),
                                 PlNotObject,
                                 PlObject AttrNotObject])"

text \<open>
  A manifest in which two descriptions share a \<^verbatim>\<open>BANDWIDTH\<close>, two are skipped, and one
  has no \<^verbatim>\<open>NAME\<close>.
\<close>

definition shared_manifest :: "playlist list" where
  "shared_manifest =
     [PlObject (AttrObject \<lparr>NAME = Some ''low'', BANDWIDTH = Some 800000\<rparr>),
      PlNotObject,
      PlObject (AttrObject \<lparr>NAME = Some ''high'', BANDWIDTH = Some 800000\<rparr>),
      PlObject AttrNotObject,
      PlObject (AttrObject \<lparr>NAME = None, BANDWIDTH = Some 64000\<rparr>)]"

section \<open>Evaluation\<close>

text \<open>
  The defining equations that evaluate the model on a concrete state.
\<close>

lemmas str_defs = num_to_string_def dec_digits.simps digit_char_def is_array_index_def
  is_digit_def index_val_def digit_val_def

lemmas demo_defs = demo_plugin_def demo_player_def demo_button_def new_plugin_def
  createQualityButton_def getTechStreaming_def

lemmas catalog_eval = getMasterPlaylists_def getBandwidthToNameMap_def addPlaylist_def

lemmas menu_eval = getQualityMeta_def getLevelItems_def levelItems_def onAddQualityLevel_def
  getQualityMenuItem_def js_get_def js_gt_def own_entries_def array_sort_def compareItems_def

section \<open>Selection: setQuality and getCurrentQuality\<close>

text \<open>
  The loop over indices writes \<open>applyQuality\<close> of each element in place: it is a
  \<open>map\<close> over the list.
\<close>

lemma setQuality_loop_take_drop:
  "i \<le> length ql \<Longrightarrow> setQuality_loop i q ql = take i ql @ map (applyQuality q) (drop i ql)"
proof (induction i q ql rule: setQuality_loop.induct)
  case (1 i q ql)
  show ?case
  proof (cases "i < length ql")
    case True
    let ?r = "applyQuality q (ql ! i)"
    have step: "setQuality_loop i q ql = setQuality_loop (i + 1) q (ql[i := ?r])"
      using True by (subst setQuality_loop.simps) (simp add: applyQuality_def pixels_of_def Let_def)
    have "setQuality_loop (i + 1) q (ql[i := ?r])
          = take (i + 1) (ql[i := ?r]) @ map (applyQuality q) (drop (i + 1) (ql[i := ?r]))"
      using True "1.IH"[OF True refl refl] by (simp add: applyQuality_def pixels_of_def)
    also have "take (i + 1) (ql[i := ?r]) = take i ql @ [?r]"
      using True by (simp add: take_Suc_conv_app_nth)
    also have "drop (i + 1) (ql[i := ?r]) = drop (i + 1) ql"
      by simp
    finally show ?thesis
      using True step by (simp add: Cons_nth_drop_Suc[symmetric])
  next
    case False
    with "1.prems" have "i = length ql" by simp
    then show ?thesis by (subst setQuality_loop.simps) simp
  qed
qed

lemma setQuality_loop_map: "setQuality_loop 0 q ql = map (applyQuality q) ql"
  by (simp add: setQuality_loop_take_drop)

lemmas setQuality_eval = setQuality_def setButtonInnerText_def setQuality_loop_map applyQuality_def
  pixels_of_def js_gt_def unpressButton_def levels_of_def

lemma setQuality_no_levels:
  "qualityLevels (player this) = None \<Longrightarrow> setQuality v this = (Throw TypeError, this)"
  by (simp add: setQuality_def)

lemma setQuality_levels_after:
  "qualityLevels (player this) = Some ql \<Longrightarrow>
   qualityLevels (player (snd (setQuality v this))) =
     Some (if displayCurrentQuality (config this) \<and> qualityButton this = None
           then ql else map (applyQuality v) ql)"
  by (simp add: setQuality_def setButtonInnerText_def setQuality_loop_map Let_def
           split: option.splits)

lemma setQuality_returns_levels:
  "qualityLevels (player this) = Some ql \<Longrightarrow> setQuality v this = (Return (), this') \<Longrightarrow>
   qualityLevels (player this') = Some (map (applyQuality v) ql)"
  by (auto simp add: setQuality_def setButtonInnerText_def setQuality_loop_map Let_def
           split: option.splits if_splits)

lemma setQuality_returns:
  "qualityLevels (player this) = Some ql \<Longrightarrow> qualityButton this = Some b \<Longrightarrow>
   fst (setQuality v this) = Return ()"
  by (simp add: setQuality_def setButtonInnerText_def Let_def)

lemma setQuality_currentQuality:
  "qualityLevels (player this) = Some ql \<Longrightarrow> currentQuality (snd (setQuality v this)) = v"
  by (simp add: setQuality_def setButtonInnerText_def Let_def split: option.splits)

lemma pixels_of_shortSide: "shortSide_spec r = Some p \<Longrightarrow> pixels_of r = Some p"
  by (auto simp add: shortSide_spec_def pixels_of_def js_gt_def split: option.splits)

lemma pixels_of_no_width: "width r = None \<Longrightarrow> pixels_of r = None"
  by (simp add: pixels_of_def js_gt_def)

lemma pixels_of_no_height: "height r = None \<Longrightarrow> pixels_of r = width r"
  by (cases "width r") (simp_all add: pixels_of_def js_gt_def)

lemma pixels_of_spec:
  assumes "height r \<noteq> None \<or> width r = None" and "v \<noteq> Undefined"
  shows "(js_of (pixels_of r) = v) = (js_of (shortSide_spec r) = v)"
proof (cases "width r")
  case None
  with assms(2) show ?thesis
    by (auto simp add: pixels_of_no_width shortSide_spec_def)
next
  case (Some w)
  with assms(1) obtain h where "height r = Some h" by auto
  with Some have "shortSide_spec r = Some (min w h)"
    by (simp add: shortSide_spec_def)
  then show ?thesis
    by (simp add: pixels_of_shortSide)
qed

text \<open>
  C3, as amended. Let \<open>v\<close> be a number or \<^verbatim>\<open>'auto'\<close>. After a call \<^verbatim>\<open>setQuality(v)\<close> that
  returns, every rendition, except one that has a width and no height, is enabled
  exactly when its short side (the smaller of width and height, when it has both) equals
  \<open>v\<close> or \<open>v\<close> is \<^verbatim>\<open>'auto'\<close>; and \<^verbatim>\<open>setQuality('auto')\<close> leaves every rendition enabled,
  whatever its fields and its prior flag.
\<close>

theorem setQuality_enables_by_short_side:
  assumes "qualityLevels (player this) = Some ql" and "setQuality v this = (Return (), this')"
    and "v \<noteq> Undefined"
  shows "\<exists>ql'. qualityLevels (player this') = Some ql' \<and> length ql' = length ql \<and>
           (\<forall>i<length ql. height (ql ! i) \<noteq> None \<or> width (ql ! i) = None \<longrightarrow>
               enabled (ql' ! i) = (js_of (shortSide_spec (ql ! i)) = v \<or> v = StrAuto)) \<and>
           (v = StrAuto \<longrightarrow> list_all enabled ql')"
proof -
  have "qualityLevels (player this') = Some (map (applyQuality v) ql)"
    using assms(1,2) by (rule setQuality_returns_levels)
  moreover have "\<forall>i<length ql. height (ql ! i) \<noteq> None \<or> width (ql ! i) = None \<longrightarrow>
      enabled (map (applyQuality v) ql ! i) = (js_of (shortSide_spec (ql ! i)) = v \<or> v = StrAuto)"
    using assms(3) by (simp add: applyQuality_def pixels_of_spec)
  moreover have "v = StrAuto \<longrightarrow> list_all enabled (map (applyQuality v) ql)"
    by (simp add: list_all_iff applyQuality_def)
  ultimately show ?thesis by simp
qed

text \<open>
  Witness: the spec's example with a fourth rendition that has a height and no width.
  \<^verbatim>\<open>setQuality(540)\<close> on 960x540, 640x360, 1920x1080 and a height of 540 alone
  enables the first rendition only, and \<^verbatim>\<open>setQuality('auto')\<close> enables all four.
\<close>

theorem setQuality_enables_by_short_side_witness:
  "qualityLevels (player (demo_plugin (demo_levels @ [height_only 540]) NoPlaylists))
     = Some (demo_levels @ [height_only 540]) \<and>
   setQuality (Number 540) (demo_plugin (demo_levels @ [height_only 540]) NoPlaylists)
     = (Return (), snd (setQuality (Number 540) (demo_plugin (demo_levels @ [height_only 540]) NoPlaylists))) \<and>
   Number 540 \<noteq> Undefined \<and>
   map enabled (levels_of (snd (setQuality (Number 540)
       (demo_plugin (demo_levels @ [height_only 540]) NoPlaylists))))
     = [True, False, False, False] \<and>
   map enabled (levels_of (snd (setQuality StrAuto
       (demo_plugin (demo_levels @ [height_only 540]) NoPlaylists))))
     = [True, True, True, True]"
  using setQuality_enables_by_short_side
    [of "demo_plugin (demo_levels @ [height_only 540]) NoPlaylists" "demo_levels @ [height_only 540]"
        "Number 540"
        "snd (setQuality (Number 540) (demo_plugin (demo_levels @ [height_only 540]) NoPlaylists))"]
  by (simp add: demo_defs demo_levels_def height_only_def setQuality_eval)

text \<open>
  C3 as stated fails for a rendition without a height: \<^verbatim>\<open>540 > undefined\<close> is false,
  so \<^verbatim>\<open>pixels\<close> is the width, and \<^verbatim>\<open>setQuality(540)\<close> enables a rendition that has no
  short side.
\<close>

theorem setQuality_width_only_counterexample:
  "fst (setQuality (Number 540) (demo_plugin [width_only 540] NoPlaylists)) = Return () \<and>
   map enabled (levels_of (snd (setQuality (Number 540) (demo_plugin [width_only 540] NoPlaylists))))
     = [True] \<and>
   shortSide_spec (width_only 540) = None"
  by (simp add: demo_defs width_only_def shortSide_spec_def setQuality_eval)

text \<open>
  C8. A call \<^verbatim>\<open>setQuality(v)\<close> on a rendition list leaves the list's length and order
  and every field of every rendition other than \<^verbatim>\<open>enabled\<close> as they were: each element
  after the call, with its old flag put back, is the element before the call. This
  holds whether the call returns or throws.
\<close>

theorem setQuality_frame:
  assumes "qualityLevels (player this) = Some ql"
  shows "\<exists>ql'. qualityLevels (player (snd (setQuality v this))) = Some ql' \<and>
           length ql' = length ql \<and>
           list_all2 (\<lambda>r r'. r'\<lparr>enabled := enabled r\<rparr> = r) ql ql' \<and>
           map width ql' = map width ql \<and> map height ql' = map height ql \<and>
           map bandwidth ql' = map bandwidth ql"
proof -
  have "list_all2 (\<lambda>r r'. r'\<lparr>enabled := enabled r\<rparr> = r) ql (map (applyQuality v) ql)"
    by (simp add: list_all2_map2 applyQuality_def list_all2_same)
  moreover have "list_all2 (\<lambda>r r'. r'\<lparr>enabled := enabled r\<rparr> = r) ql ql"
    by (simp add: list_all2_same)
  moreover have "map width (map (applyQuality v) ql) = map width ql"
    "map height (map (applyQuality v) ql) = map height ql"
    "map bandwidth (map (applyQuality v) ql) = map bandwidth ql"
    by (simp_all add: applyQuality_def)
  ultimately show ?thesis
    using setQuality_levels_after[OF assms, of v] by simp
qed

text \<open>
  Witness: \<^verbatim>\<open>setQuality(540)\<close> on the spec's example.
\<close>

theorem setQuality_frame_witness:
  "qualityLevels (player (demo_plugin demo_levels NoPlaylists)) = Some demo_levels \<and>
   (\<exists>ql'. qualityLevels (player (snd (setQuality (Number 540) (demo_plugin demo_levels NoPlaylists))))
            = Some ql' \<and>
          length ql' = 3 \<and>
          map width ql' = [Some 960, Some 640, Some 1920] \<and>
          map height ql' = [Some 540, Some 360, Some 1080] \<and>
          map bandwidth ql' = [Some 1500000, Some 800000, Some 5000000])"
proof -
  have h: "qualityLevels (player (demo_plugin demo_levels NoPlaylists)) = Some demo_levels"
    by (simp add: demo_defs)
  show ?thesis
    using h setQuality_frame[OF h, of "Number 540"] by (auto simp add: demo_levels_def)
qed

text \<open>
  C4, as amended. \<^verbatim>\<open>getCurrentQuality\<close> returns \<^verbatim>\<open>'auto'\<close> on a freshly constructed
  plugin. After \<^verbatim>\<open>setQuality(v)\<close> on a player with a rendition list it returns \<open>v\<close> when
  \<open>v\<close> is truthy, and \<^verbatim>\<open>'auto'\<close> when \<open>v\<close> is falsy (\<open>0\<close> or \<^verbatim>\<open>undefined\<close>).
\<close>

theorem getCurrentQuality_after_setQuality:
  "getCurrentQuality (new_plugin p opts fresh) = StrAuto \<and>
   (qualityLevels (player this) \<noteq> None \<longrightarrow>
      getCurrentQuality (snd (setQuality v this)) = (if truthy v then v else StrAuto))"
  by (auto simp add: getCurrentQuality_def new_plugin_def createQualityButton_def Let_def
        setQuality_currentQuality)

text \<open>
  Witness: a fresh plugin reports \<^verbatim>\<open>'auto'\<close>, and 720 after \<^verbatim>\<open>setQuality(720)\<close>.
\<close>

theorem getCurrentQuality_after_setQuality_witness:
  "getCurrentQuality (demo_plugin demo_levels NoPlaylists) = StrAuto \<and>
   qualityLevels (player (demo_plugin demo_levels NoPlaylists)) \<noteq> None \<and>
   getCurrentQuality (snd (setQuality (Number 720) (demo_plugin demo_levels NoPlaylists))) = Number 720"
proof -
  have h: "qualityLevels (player (demo_plugin demo_levels NoPlaylists)) \<noteq> None"
    by (simp add: demo_defs)
  show ?thesis
    using h getCurrentQuality_after_setQuality
      [of "demo_player demo_levels NoPlaylists"
          "\<lparr>displayCurrentQuality = True, vjsIconClass = None, placementIndex = None\<rparr>"
          demo_button "demo_plugin demo_levels NoPlaylists" "Number 720"]
    by (simp add: demo_plugin_def)
qed

text \<open>
  C4 as stated fails at \<open>v = 0\<close>: \<^verbatim>\<open>this._currentQuality || 'auto'\<close> takes the
  default for a falsy value, so after \<^verbatim>\<open>setQuality(0)\<close> the accessor returns
  \<^verbatim>\<open>'auto'\<close>.
\<close>

theorem getCurrentQuality_zero_counterexample:
  "fst (setQuality (Number 0) (demo_plugin demo_levels NoPlaylists)) = Return () \<and>
   getCurrentQuality (snd (setQuality (Number 0) (demo_plugin demo_levels NoPlaylists))) = StrAuto \<and>
   getCurrentQuality (snd (setQuality (Number 0) (demo_plugin demo_levels NoPlaylists))) \<noteq> Number 0"
  by (simp add: demo_defs getCurrentQuality_def setQuality_def setButtonInnerText_def Let_def)

text \<open>
  C10, as amended. After a call \<^verbatim>\<open>setQuality(n)\<close> with a number \<open>n\<close> that returns, every
  rendition without a width is disabled, and a rendition that has a width but no height
  is enabled exactly when its width equals \<open>n\<close>.
\<close>

theorem setQuality_without_geometry:
  assumes "qualityLevels (player this) = Some ql" and "setQuality (Number n) this = (Return (), this')"
  shows "\<exists>ql'. qualityLevels (player this') = Some ql' \<and> length ql' = length ql \<and>
           (\<forall>i<length ql. width (ql ! i) = None \<longrightarrow> \<not> enabled (ql' ! i)) \<and>
           (\<forall>i<length ql. \<forall>w. width (ql ! i) = Some w \<and> height (ql ! i) = None \<longrightarrow>
               enabled (ql' ! i) = (w = n))"
proof -
  have "qualityLevels (player this') = Some (map (applyQuality (Number n)) ql)"
    using assms by (rule setQuality_returns_levels)
  moreover have "\<forall>i<length ql. width (ql ! i) = None \<longrightarrow>
      \<not> enabled (map (applyQuality (Number n)) ql ! i)"
    by (simp add: applyQuality_def pixels_of_no_width)
  moreover have "\<forall>i<length ql. \<forall>w. width (ql ! i) = Some w \<and> height (ql ! i) = None \<longrightarrow>
      enabled (map (applyQuality (Number n)) ql ! i) = (w = n)"
    by (simp add: applyQuality_def pixels_of_no_height)
  ultimately show ?thesis by simp
qed

text \<open>
  Witness: \<^verbatim>\<open>setQuality(720)\<close> disables a rendition with a height of 720 and no
  width, and one with a width of 360 and no height.
\<close>

theorem setQuality_without_geometry_witness:
  "qualityLevels (player (demo_plugin [\<lparr>width = None, height = Some 720, bandwidth = Some 64000, enabled = True\<rparr>,
                                        width_only 360] NoPlaylists))
     = Some [\<lparr>width = None, height = Some 720, bandwidth = Some 64000, enabled = True\<rparr>, width_only 360] \<and>
   fst (setQuality (Number 720)
          (demo_plugin [\<lparr>width = None, height = Some 720, bandwidth = Some 64000, enabled = True\<rparr>,
                        width_only 360] NoPlaylists)) = Return () \<and>
   map enabled (levels_of (snd (setQuality (Number 720)
          (demo_plugin [\<lparr>width = None, height = Some 720, bandwidth = Some 64000, enabled = True\<rparr>,
                        width_only 360] NoPlaylists)))) = [False, False]"
  using setQuality_without_geometry
    [of "demo_plugin [\<lparr>width = None, height = Some 720, bandwidth = Some 64000, enabled = True\<rparr>,
                      width_only 360] NoPlaylists"
        "[\<lparr>width = None, height = Some 720, bandwidth = Some 64000, enabled = True\<rparr>, width_only 360]"
        720
        "snd (setQuality (Number 720)
          (demo_plugin [\<lparr>width = None, height = Some 720, bandwidth = Some 64000, enabled = True\<rparr>,
                        width_only 360] NoPlaylists))"]
  by (simp add: demo_defs width_only_def setQuality_eval)

text \<open>
  C10 as stated fails for a rendition that lacks a height only: with a width of 720,
  \<^verbatim>\<open>setQuality(720)\<close> enables it.
\<close>

theorem setQuality_bandwidth_only_counterexample:
  "height (width_only 720) = None \<and>
   fst (setQuality (Number 720) (demo_plugin [width_only 720] NoPlaylists)) = Return () \<and>
   map enabled (levels_of (snd (setQuality (Number 720) (demo_plugin [width_only 720] NoPlaylists))))
     = [True]"
  by (simp add: demo_defs width_only_def setQuality_eval)

section \<open>Catalog: getBandwidthToNameMap\<close>

lemma addPlaylist_skipped: "skipped pl \<Longrightarrow> addPlaylist acc pl = Return acc"
  by (auto simp add: skipped_def addPlaylist_def)

lemma addPlaylist_attrs:
  "addPlaylist acc (PlObject (AttrObject a)) =
     Return (js_set acc (js_to_string (js_of (BANDWIDTH a))) (NAME a))"
  by (simp add: addPlaylist_def)

text \<open>A \<^verbatim>\<open>null\<close> entry passes the \<^verbatim>\<open>typeof\<close> guard and throws.\<close>

lemma addPlaylist_null: "null_entry pl \<Longrightarrow> addPlaylist acc pl = Throw TypeError"
  by (auto simp add: null_entry_def addPlaylist_def)

lemma own_keys_js_set: "own_keys (js_set obj k v) = insert k (own_keys obj)"
  by (induction obj k v rule: js_set.induct) (auto simp add: own_keys_def)

lemma reduce_drops_skipped: "reduce acc (filter (\<lambda>pl. \<not> skipped pl) pls) = reduce acc pls"
  by (induction pls arbitrary: acc) (auto simp add: addPlaylist_skipped split: completion.splits)

lemma attrs_object_cases:
  assumes "\<not> skipped pl" and "\<not> null_entry pl"
  shows "\<exists>a. pl = PlObject (AttrObject a)"
proof (cases pl)
  case (PlObject av)
  with assms show ?thesis
    by (cases av) (simp_all add: skipped_def null_entry_def)
qed (use assms in \<open>simp_all add: skipped_def null_entry_def\<close>)

lemma reduce_keys:
  "list_all (\<lambda>pl. \<not> null_entry pl) pls \<Longrightarrow>
   \<exists>m. reduce acc pls = Return m \<and>
       own_keys m = own_keys acc \<union> (\<lambda>a. js_to_string (js_of (BANDWIDTH a))) ` set (attrs_of pls)"
proof (induction pls arbitrary: acc)
  case Nil
  then show ?case by (simp add: attrs_of_def)
next
  case (Cons pl pls)
  then have rest: "list_all (\<lambda>pl. \<not> null_entry pl) pls" and here: "\<not> null_entry pl"
    by simp_all
  show ?case
  proof (cases "skipped pl")
    case True
    then have "attrs_of (pl # pls) = attrs_of pls"
      by (auto simp add: attrs_of_def skipped_def)
    with True Cons.IH[OF rest, of acc] show ?thesis
      by (simp add: addPlaylist_skipped)
  next
    case False
    with here obtain a where pl: "pl = PlObject (AttrObject a)"
      using attrs_object_cases by blast
    then have "attrs_of (pl # pls) = a # attrs_of pls"
      by (simp add: attrs_of_def)
    with pl Cons.IH[OF rest, of "js_set acc (js_to_string (js_of (BANDWIDTH a))) (NAME a)"]
    show ?thesis
      by (auto simp add: addPlaylist_attrs own_keys_js_set)
  qed
qed

lemma reduce_returns: "list_all (\<lambda>pl. \<not> null_entry pl) pls \<Longrightarrow> \<exists>m. reduce acc pls = Return m"
  using reduce_keys by blast

text \<open>
  \<^verbatim>\<open>Object.assign(acc, {[BANDWIDTH]: NAME})\<close> overwrites: the map that is built holds,
  under each key, what the last description with that key wrote.
\<close>

lemma js_get_js_set: "js_get (js_set obj k v) = (js_get obj)(k \<mapsto> v)"
  by (induction obj k v rule: js_set.induct) (auto simp add: js_get_def fun_eq_iff)

lemma reduce_names:
  "reduce acc pls = Return m \<Longrightarrow> js_get m = js_get acc ++ map_of (rev (name_entries pls))"
proof (induction pls arbitrary: acc)
  case Nil
  then show ?case by (simp add: name_entries_def attrs_of_def)
next
  case (Cons pl pls)
  then obtain acc' where step: "addPlaylist acc pl = Return acc'" and run: "reduce acc' pls = Return m"
    by (auto split: completion.splits)
  have rest: "js_get m = js_get acc' ++ map_of (rev (name_entries pls))"
    using run by (rule Cons.IH)
  show ?case
  proof (cases "skipped pl")
    case True
    then have "name_entries (pl # pls) = name_entries pls"
      by (auto simp add: name_entries_def attrs_of_def skipped_def)
    moreover have "acc' = acc"
      using step True by (simp add: addPlaylist_skipped)
    ultimately show ?thesis using rest by simp
  next
    case False
    have "\<not> null_entry pl"
      using step by (auto simp add: addPlaylist_null)
    with False obtain a where pl: "pl = PlObject (AttrObject a)"
      using attrs_object_cases by blast
    let ?k = "js_to_string (js_of (BANDWIDTH a))"
    have "name_entries (pl # pls) = (?k, NAME a) # name_entries pls"
      using pl by (simp add: name_entries_def attrs_of_def)
    moreover have "js_get acc' = (js_get acc)(?k \<mapsto> NAME a)"
      using step pl by (auto simp add: addPlaylist_attrs js_get_js_set)
    ultimately show ?thesis
      using rest by (simp add: map_add_assoc[symmetric])
  qed
qed

text \<open>
  C7, as amended. Take a manifest in which no description is \<^verbatim>\<open>null\<close> and no
  \<^verbatim>\<open>attributes\<close> is \<^verbatim>\<open>null\<close>. When the name map is first built from it, construction
  returns. A description that is not an object, or whose \<^verbatim>\<open>attributes\<close> is not an
  object, is skipped: the callback returns the accumulator as it is, and the map is the
  one built from the manifest without these descriptions. A description with an
  \<^verbatim>\<open>attributes\<close> object writes its \<^verbatim>\<open>NAME\<close> (which may be \<^verbatim>\<open>undefined\<close>) under the
  string of its \<^verbatim>\<open>BANDWIDTH\<close>, which is \<^verbatim>\<open>'undefined'\<close> when \<^verbatim>\<open>BANDWIDTH\<close> is
  absent: the keys of the map are exactly these strings, and under each key the map holds
  the \<^verbatim>\<open>NAME\<close> of the last description with that \<^verbatim>\<open>BANDWIDTH\<close>.
\<close>

theorem getBandwidthToNameMap_skips_non_objects:
  assumes "bandwidthToNameMap this = None" and "getMasterPlaylists this = Return pls"
    and "list_all (\<lambda>pl. \<not> null_entry pl) pls"
  shows "\<exists>m. getBandwidthToNameMap this = (Return m, this\<lparr>bandwidthToNameMap := Some m\<rparr>) \<and>
             reduce [] (filter (\<lambda>pl. \<not> skipped pl) pls) = Return m \<and>
             (\<forall>pl\<in>set pls. skipped pl \<longrightarrow> (\<forall>acc. addPlaylist acc pl = Return acc)) \<and>
             own_keys m = (\<lambda>a. js_to_string (js_of (BANDWIDTH a))) ` set (attrs_of pls) \<and>
             js_get m = map_of (rev (name_entries pls))"
proof -
  obtain m where m: "reduce [] pls = Return m"
    and k: "own_keys m = own_keys ([] :: name_map) \<union> (\<lambda>a. js_to_string (js_of (BANDWIDTH a))) ` set (attrs_of pls)"
    using reduce_keys[OF assms(3), of "[]"] by blast
  have "getBandwidthToNameMap this = (Return m, this\<lparr>bandwidthToNameMap := Some m\<rparr>)"
    using assms(1,2) m by (simp add: getBandwidthToNameMap_def)
  moreover have "own_keys ([] :: name_map) = {}"
    by (simp add: own_keys_def)
  moreover have "js_get m = map_of (rev (name_entries pls))"
  proof -
    have "js_get ([] :: name_map) = Map.empty"
      by (simp add: js_get_def fun_eq_iff)
    with reduce_names[OF m] show ?thesis by simp
  qed
  ultimately show ?thesis
    using m k by (simp add: reduce_drops_skipped addPlaylist_skipped)
qed

text \<open>
  Witness: of two descriptions with the bit rate 800000 the later name, \<^verbatim>\<open>'high'\<close>, is
  stored; the description without \<^verbatim>\<open>NAME\<close> stores \<^verbatim>\<open>undefined\<close> under its bit rate;
  the two descriptions without an \<^verbatim>\<open>attributes\<close> object leave no key.
\<close>

theorem getBandwidthToNameMap_skips_non_objects_witness:
  "bandwidthToNameMap (demo_plugin [] (PlaylistArray shared_manifest)) = None \<and>
   getMasterPlaylists (demo_plugin [] (PlaylistArray shared_manifest)) = Return shared_manifest \<and>
   list_all (\<lambda>pl. \<not> null_entry pl) shared_manifest \<and>
   fst (getBandwidthToNameMap (demo_plugin [] (PlaylistArray shared_manifest)))
     = Return [(''800000'', Some ''high''), (''64000'', None)] \<and>
   map_of (rev (name_entries shared_manifest)) ''800000'' = Some (Some ''high'')"
  using getBandwidthToNameMap_skips_non_objects
    [of "demo_plugin [] (PlaylistArray shared_manifest)" shared_manifest]
  by (simp add: demo_defs shared_manifest_def catalog_eval null_entry_def name_entries_def
        attrs_of_def str_defs)

text \<open>
  C7 as stated fails for a description whose \<^verbatim>\<open>attributes\<close> object has a \<^verbatim>\<open>NAME\<close> and
  no \<^verbatim>\<open>BANDWIDTH\<close>: it is not skipped, it adds the key \<^verbatim>\<open>'undefined'\<close>.
\<close>

theorem getBandwidthToNameMap_missing_bandwidth_counterexample:
  "fst (getBandwidthToNameMap
          (demo_plugin [] (PlaylistArray [PlObject (AttrObject \<lparr>NAME = Some ''720p'', BANDWIDTH = None\<rparr>)])))
     = Return [(''undefined'', Some ''720p'')]"
  by (simp add: demo_defs catalog_eval)

section \<open>Labels: getQualityMeta\<close>

text \<open>
  With a non-zero width and height the second branch is taken: the label is the short
  side followed by \<^verbatim>\<open>p\<close>, the value is the bandwidth, and the state is untouched.
\<close>

lemma getQualityMeta_geometry:
  assumes "width it = Some w" and "height it = Some h" and "w \<noteq> 0" and "h \<noteq> 0"
  shows "getQualityMeta it this =
           (Return \<lparr>label = Some (num_to_string (min w h) @ ''p''),
                    value = js_of (bandwidth it), selected = None\<rparr>, this)"
  using assms by (simp add: getQualityMeta_def js_gt_def Let_def min_def)

text \<open>
  C1. The claim says that for a rendition with width and height the value of the
  QualityMeta is the short side. The code returns \<^verbatim>\<open>value: item.bandwidth\<close>: for
  960x540 at 1500000 bit/s the label is \<^verbatim>\<open>'540p'\<close> and the value is 1500000, not 540.
\<close>

theorem getQualityMeta_value_is_bandwidth:
  "shortSide_spec \<lparr>width = Some 960, height = Some 540, bandwidth = Some 1500000, enabled = True\<rparr>
     = Some 540 \<and>
   fst (getQualityMeta \<lparr>width = Some 960, height = Some 540, bandwidth = Some 1500000, enabled = True\<rparr>
          (demo_plugin [] demo_manifest))
     = Return \<lparr>label = Some ''540p'', value = Number 1500000, selected = None\<rparr>"
  by (simp add: shortSide_spec_def getQualityMeta_geometry str_defs)

text \<open>
  C9. For a rendition whose width or height is \<open>0\<close> or absent, \<^verbatim>\<open>getQualityMeta\<close>
  takes the first branch: once the name map \<open>bw\<close> is available, the label is the entry
  of \<open>bw\<close> under the string of the bandwidth (under \<^verbatim>\<open>'undefined'\<close> for a falsy
  bandwidth; \<^verbatim>\<open>undefined\<close> when there is no such entry), and the value is the
  bandwidth.
\<close>

theorem getQualityMeta_falsy_geometry:
  assumes "width it = Some 0 \<or> height it = Some 0 \<or> width it = None \<or> height it = None"
    and "getBandwidthToNameMap this = (Return bw, this')"
  shows "getQualityMeta it this =
           (Return \<lparr>label = (case map_of bw (if truthy (js_of (bandwidth it))
                                               then js_to_string (js_of (bandwidth it))
                                               else ''undefined'') of
                               Some l \<Rightarrow> l | None \<Rightarrow> None),
                    value = js_of (bandwidth it), selected = None\<rparr>, this')"
proof -
  have "\<not> (truthy (js_of (width it)) \<and> truthy (js_of (height it)))"
    using assms(1) by auto
  then show ?thesis
    using assms(2) by (simp add: getQualityMeta_def js_get_def Let_def)
qed

text \<open>
  Witness: a rendition 0x720 at 2000000 bit/s gets the manifest's name \<^verbatim>\<open>'720p'\<close> and
  the value 2000000.
\<close>

theorem getQualityMeta_falsy_geometry_witness:
  "width \<lparr>width = Some 0, height = Some 720, bandwidth = Some 2000000, enabled = True\<rparr> = Some 0 \<and>
   fst (getBandwidthToNameMap (demo_plugin [] demo_manifest)) = Return [(''2000000'', Some ''720p'')] \<and>
   fst (getQualityMeta \<lparr>width = Some 0, height = Some 720, bandwidth = Some 2000000, enabled = True\<rparr>
          (demo_plugin [] demo_manifest))
     = Return \<lparr>label = Some ''720p'', value = Number 2000000, selected = None\<rparr>"
  using getQualityMeta_falsy_geometry
    [of "\<lparr>width = Some 0, height = Some 720, bandwidth = Some 2000000, enabled = True\<rparr>"
        "demo_plugin [] demo_manifest" "[(''2000000'', Some ''720p'')]"
        "snd (getBandwidthToNameMap (demo_plugin [] demo_manifest))"]
  by (simp add: demo_defs demo_manifest_def catalog_eval str_defs getQualityMeta_def js_get_def)

section \<open>Sorting\<close>

lemma set_ins: "set (ins cmp x ys) = insert x (set ys)"
  by (induction ys) auto

lemma set_foldl_ins: "set (foldl (\<lambda>acc x. ins cmp x acc) acc xs) = set acc \<union> set xs"
  by (induction xs arbitrary: acc) (auto simp add: set_ins)

lemma set_array_sort: "set (array_sort cmp xs) = set xs"
  by (simp add: array_sort_def set_foldl_ins)

text \<open>
  Where the comparator agrees with an integer key, the result is sorted by that key.
  \<open>compareItems\<close> agrees with the number in the value on items whose values are
  numbers.
\<close>

lemma ins_sorted_key:
  fixes key :: "'a \<Rightarrow> int"
  assumes "\<And>y. y \<in> set ys \<Longrightarrow> (cmp y x > 0) = (key x < key y)"
    and "sorted_wrt (\<lambda>a b. key b \<le> key a) ys"
  shows "sorted_wrt (\<lambda>a b. key b \<le> key a) (ins cmp x ys)"
  using assms
proof (induction ys)
  case Nil
  then show ?case by simp
next
  case (Cons y ys)
  show ?case
  proof (cases "cmp y x > 0")
    case True
    then have "key x < key y" using Cons.prems(1) by simp
    moreover have "sorted_wrt (\<lambda>a b. key b \<le> key a) (ins cmp x ys)"
      using Cons by simp
    ultimately show ?thesis
      using True Cons.prems(2) by (auto simp add: set_ins)
  next
    case False
    then have "key y \<le> key x" using Cons.prems(1)[of y] by simp
    then show ?thesis
      using False Cons.prems(2) by auto
  qed
qed

lemma foldl_ins_sorted_key:
  fixes key :: "'a \<Rightarrow> int"
  assumes "\<And>x y. x \<in> A \<Longrightarrow> y \<in> A \<Longrightarrow> (cmp y x > 0) = (key x < key y)"
    and "set xs \<subseteq> A" and "set acc \<subseteq> A"
    and "sorted_wrt (\<lambda>a b. key b \<le> key a) acc"
  shows "sorted_wrt (\<lambda>a b. key b \<le> key a) (foldl (\<lambda>acc x. ins cmp x acc) acc xs)"
  using assms(2-)
proof (induction xs arbitrary: acc)
  case Nil
  then show ?case by simp
next
  case (Cons x xs)
  have "sorted_wrt (\<lambda>a b. key b \<le> key a) (ins cmp x acc)"
  proof (rule ins_sorted_key)
    fix y assume "y \<in> set acc"
    then show "(cmp y x > 0) = (key x < key y)"
      using assms(1)[of x y] Cons.prems by auto
  qed (rule Cons.prems)
  moreover have "set (ins cmp x acc) \<subseteq> A"
    using Cons.prems by (simp add: set_ins)
  ultimately show ?case
    using Cons.IH[of "ins cmp x acc"] Cons.prems(1) by simp
qed

lemma array_sort_sorted_key:
  fixes key :: "'a \<Rightarrow> int"
  assumes "\<And>x y. x \<in> set xs \<Longrightarrow> y \<in> set xs \<Longrightarrow> (cmp y x > 0) = (key x < key y)"
  shows "sorted_wrt (\<lambda>a b. key a \<le> key b) (array_sort cmp xs)"
proof -
  have "sorted_wrt (\<lambda>a b. key b \<le> key a) (foldl (\<lambda>acc x. ins cmp x acc) [] xs)"
    by (rule foldl_ins_sorted_key[where A = "set xs"]) (use assms in simp_all)
  then show ?thesis
    by (simp add: array_sort_def sorted_wrt_rev)
qed

lemma compareItems_numbers:
  assumes "value (item x) = Number a" and "value (item y) = Number b"
  shows "(compareItems y x > 0) = (num_key x < num_key y)"
  using assms by (simp add: compareItems_def js_gt_def num_key_def)

lemma array_sort_compareItems:
  assumes "list_all (\<lambda>x. \<exists>n. value (item x) = Number n) xs"
  shows "sorted_wrt (\<lambda>a b. js_le (value (item a)) (value (item b))) (array_sort compareItems xs)"
proof -
  have num: "\<And>x. x \<in> set xs \<Longrightarrow> \<exists>n. value (item x) = Number n"
    using assms by (simp add: list_all_iff)
  have "sorted_wrt (\<lambda>a b. num_key a \<le> num_key b) (array_sort compareItems xs)"
  proof (rule array_sort_sorted_key)
    fix x y assume "x \<in> set xs" and "y \<in> set xs"
    then show "(compareItems y x > 0) = (num_key x < num_key y)"
      using num compareItems_numbers by blast
  qed
  moreover have "\<And>a b. a \<in> set (array_sort compareItems xs) \<Longrightarrow> b \<in> set (array_sort compareItems xs) \<Longrightarrow>
      num_key a \<le> num_key b \<Longrightarrow> js_le (value (item a)) (value (item b))"
  proof -
    fix a b assume "a \<in> set (array_sort compareItems xs)" and "b \<in> set (array_sort compareItems xs)"
      and le: "num_key a \<le> num_key b"
    then have "a \<in> set xs" and "b \<in> set xs"
      by (simp_all add: set_array_sort)
    then obtain m n where "value (item a) = Number m" and "value (item b) = Number n"
      using num by blast
    with le show "js_le (value (item a)) (value (item b))"
      by (simp add: num_key_def)
  qed
  ultimately show ?thesis
    by (rule sorted_wrt_mono_rel[rotated])
qed

section \<open>Menu: getLevelItems and onAddQualityLevel\<close>

text \<open>
  Building the menu changes nothing in the plugin but the cached name map.
\<close>

lemma cache_only_refl: "cache_only this this"
  by (simp add: cache_only_def)

lemma cache_only_trans: "cache_only a b \<Longrightarrow> cache_only b c \<Longrightarrow> cache_only a c"
  by (cases a, cases b, cases c) (simp add: cache_only_def)

lemma cache_only_fields:
  assumes "cache_only this this'"
  shows "player this' = player this" and "qualityButton this' = qualityButton this"
    and "config this' = config this" and "currentQuality this' = currentQuality this"
  using assms by (cases this, cases this', simp add: cache_only_def)+

lemma getBandwidthToNameMap_cache_only:
  "getBandwidthToNameMap this = (c, this') \<Longrightarrow> cache_only this this'"
  by (auto simp add: getBandwidthToNameMap_def cache_only_def split: option.splits completion.splits)

lemma getQualityMeta_cache_only:
  "getQualityMeta it this = (c, this') \<Longrightarrow> cache_only this this'"
  by (auto simp add: getQualityMeta_def Let_def cache_only_refl getBandwidthToNameMap_cache_only
      split: if_splits prod.splits completion.splits)

lemma getQualityMeta_value:
  "getQualityMeta it this = (Return meta, this') \<Longrightarrow> value meta = js_of (bandwidth it)"
  by (auto simp add: getQualityMeta_def Let_def split: if_splits prod.splits completion.splits)

lemma getLevelItems_loop_cache_only:
  "getLevelItems_loop levels items this = (c, this') \<Longrightarrow> cache_only this this'"
proof (induction levels arbitrary: items this)
  case Nil
  then show ?case by (simp add: cache_only_refl)
next
  case (Cons level levels)
  obtain c1 this1 where m: "getQualityMeta level this = (c1, this1)"
    by (cases "getQualityMeta level this")
  then have step: "cache_only this this1"
    by (rule getQualityMeta_cache_only)
  show ?case
  proof (cases c1)
    case (Throw e)
    with Cons.prems m step show ?thesis by simp
  next
    case (Return meta)
    with Cons.prems m obtain items1 where "getLevelItems_loop levels items1 this1 = (c, this')"
      by simp
    then have "cache_only this1 this'" by (rule Cons.IH)
    with step show ?thesis by (rule cache_only_trans)
  qed
qed

text \<open>
  Every value in the menu is the bandwidth of a rendition.
\<close>

lemma set_js_set: "set (js_set obj k v) \<subseteq> insert (k, v) (set obj)"
  by (induction obj k v rule: js_set.induct) auto

lemma getLevelItems_loop_values:
  assumes "getLevelItems_loop levels items this = (Return items', this')"
    and "\<And>r. r \<in> set levels \<Longrightarrow> P (js_of (bandwidth r))"
    and "\<And>e. e \<in> set items \<Longrightarrow> P (value (item (snd e)))"
  shows "\<forall>e\<in>set items'. P (value (item (snd e)))"
  using assms
proof (induction levels arbitrary: items this)
  case Nil
  then show ?case by simp
next
  case (Cons level levels)
  obtain c1 this1 where m: "getQualityMeta level this = (c1, this1)"
    by (cases "getQualityMeta level this")
  show ?case
  proof (cases c1)
    case (Throw e)
    with Cons.prems(1) m show ?thesis by simp
  next
    case (Return meta)
    let ?k = "js_to_string (value meta)"
    let ?items1 = "if js_get items ?k = None
                   then js_set items ?k (getQualityMenuItem \<lparr>label = label meta, value = value meta, selected = None\<rparr>)
                   else items"
    have run: "getLevelItems_loop levels ?items1 this1 = (Return items', this')"
      using Cons.prems(1) m Return by simp
    have "value meta = js_of (bandwidth level)"
      using m Return by (simp add: getQualityMeta_value)
    then have "P (value meta)"
      using Cons.prems(2)[of level] by simp
    let ?mi = "getQualityMenuItem \<lparr>label = label meta, value = value meta, selected = None\<rparr>"
    have "set (js_set items ?k ?mi) \<subseteq> insert (?k, ?mi) (set items)"
      by (rule set_js_set)
    moreover have "value (item ?mi) = value meta"
      by (simp add: getQualityMenuItem_def)
    ultimately have "\<And>e. e \<in> set ?items1 \<Longrightarrow> P (value (item (snd e)))"
      using Cons.prems(3) \<open>P (value meta)\<close> by (fastforce split: if_splits)
    then show ?thesis
      using Cons.IH[OF run] Cons.prems(2) by simp
  qed
qed

lemma set_own_entries: "set (own_entries obj) = set obj"
  by (auto simp add: own_entries_def)

lemma getLevelItems_values:
  assumes "getLevelItems levels this = (Return its, this')"
    and "\<And>r. r \<in> set levels \<Longrightarrow> P (js_of (bandwidth r))"
  shows "\<forall>x\<in>set its. P (value (item x))"
proof -
  obtain items' where run: "getLevelItems_loop levels [] this = (Return items', this')"
    and its: "its = map snd (own_entries items')"
    using assms(1) by (auto simp add: getLevelItems_def split: prod.splits completion.splits)
  have "\<forall>e\<in>set items'. P (value (item (snd e)))"
    using getLevelItems_loop_values[of levels "[]" this items' this' P, OF run] assms(2) by simp
  then show ?thesis
    by (simp add: its set_own_entries)
qed

lemma getLevelItems_cache_only:
  "getLevelItems levels this = (c, this') \<Longrightarrow> cache_only this this'"
  by (auto simp add: getLevelItems_def getLevelItems_loop_cache_only split: prod.splits completion.splits)

lemma js_of_not_auto: "js_of b \<noteq> StrAuto"
  by (cases b) simp_all

text \<open>
  With a usable catalog, nothing in the construction of the menu throws.
\<close>

lemma getBandwidthToNameMap_returns:
  assumes "catalog_ok this"
  shows "\<exists>m this'. getBandwidthToNameMap this = (Return m, this') \<and> catalog_ok this'"
proof (cases "bandwidthToNameMap this")
  case (Some m)
  with assms show ?thesis by (simp add: getBandwidthToNameMap_def)
next
  case None
  with assms obtain pls where pls: "getMasterPlaylists this = Return pls"
    and ok: "list_all (\<lambda>pl. \<not> null_entry pl) pls"
    by (auto simp add: catalog_ok_def split: completion.splits)
  obtain m where "reduce [] pls = Return m"
    using reduce_returns[OF ok] by blast
  with None pls show ?thesis
    by (simp add: getBandwidthToNameMap_def catalog_ok_def)
qed

lemma getQualityMeta_returns:
  assumes "catalog_ok this"
  shows "\<exists>meta this'. getQualityMeta it this = (Return meta, this') \<and> catalog_ok this'"
proof (cases "truthy (js_of (width it)) \<and> truthy (js_of (height it))")
  case True
  with assms show ?thesis by (simp add: getQualityMeta_def Let_def)
next
  case False
  obtain m this' where "getBandwidthToNameMap this = (Return m, this')" and "catalog_ok this'"
    using getBandwidthToNameMap_returns[OF assms] by blast
  with False show ?thesis by (simp add: getQualityMeta_def Let_def)
qed

lemma getLevelItems_loop_returns:
  "catalog_ok this \<Longrightarrow> \<exists>items' this'. getLevelItems_loop levels items this = (Return items', this')"
proof (induction levels arbitrary: items this)
  case Nil
  then show ?case by simp
next
  case (Cons level levels)
  obtain meta this1 where "getQualityMeta level this = (Return meta, this1)" and "catalog_ok this1"
    using getQualityMeta_returns[OF Cons.prems] by blast
  then show ?case
    using Cons.IH[of this1] by simp
qed

lemma levelItems_returns:
  assumes "qualityLevels (player this) = Some levels" and "catalog_ok this"
  shows "\<exists>its this'. levelItems this = (Return its, this')"
proof -
  obtain items' this' where "getLevelItems_loop levels [] this = (Return items', this')"
    using getLevelItems_loop_returns[OF assms(2)] by blast
  with assms(1) show ?thesis
    by (simp add: levelItems_def getLevelItems_def)
qed

lemma levelItems_shape:
  assumes "levelItems this = (Return its, this')"
  shows "\<exists>levels xs. qualityLevels (player this) = Some levels \<and>
           getLevelItems levels this = (Return xs, this') \<and>
           its = array_sort compareItems xs @ [auto_item this]"
proof -
  obtain levels where lv: "qualityLevels (player this) = Some levels"
    using assms by (cases "qualityLevels (player this)") (simp_all add: levelItems_def)
  obtain c this1 where g: "getLevelItems levels this = (c, this1)"
    by (cases "getLevelItems levels this")
  then have "player this1 = player this"
    using getLevelItems_cache_only cache_only_fields(1) by blast
  with assms lv g show ?thesis
    by (cases c) (auto simp add: levelItems_def auto_item_def)
qed

lemma levelItems_cache_only: "levelItems this = (Return its, this') \<Longrightarrow> cache_only this this'"
  using levelItems_shape getLevelItems_cache_only by blast

text \<open>
  The entries of \<^verbatim>\<open>getLevelItems\<close> are unique by value: the object is keyed by the
  string of the value, and a key is filled once.
\<close>

lemma js_set_fresh: "js_get obj k = None \<Longrightarrow> js_set obj k v = obj @ [(k, v)]"
  by (induction obj k v rule: js_set.induct) (auto simp add: js_get_def split: if_splits)

lemma js_get_None_iff: "js_get obj k = None \<longleftrightarrow> k \<notin> fst ` set obj"
  by (simp add: js_get_def map_of_eq_None_iff)

lemma getLevelItems_loop_keys:
  assumes "getLevelItems_loop levels items this = (Return items', this')"
    and "distinct (map fst items)"
    and "\<And>e. e \<in> set items \<Longrightarrow> fst e = js_to_string (value (item (snd e)))"
  shows "distinct (map fst items') \<and> (\<forall>e\<in>set items'. fst e = js_to_string (value (item (snd e))))"
  using assms
proof (induction levels arbitrary: items this)
  case Nil
  then show ?case by simp
next
  case (Cons level levels)
  obtain c1 this1 where m: "getQualityMeta level this = (c1, this1)"
    by (cases "getQualityMeta level this")
  show ?case
  proof (cases c1)
    case (Throw e)
    with Cons.prems(1) m show ?thesis by simp
  next
    case (Return meta)
    let ?k = "js_to_string (value meta)"
    let ?mi = "getQualityMenuItem \<lparr>label = label meta, value = value meta, selected = None\<rparr>"
    let ?items1 = "if js_get items ?k = None then js_set items ?k ?mi else items"
    have run: "getLevelItems_loop levels ?items1 this1 = (Return items', this')"
      using Cons.prems(1) m Return by simp
    have d: "distinct (map fst ?items1)"
      using Cons.prems(2) by (auto simp add: js_set_fresh js_get_None_iff)
    have k: "\<And>e. e \<in> set ?items1 \<Longrightarrow> fst e = js_to_string (value (item (snd e)))"
      using Cons.prems(3) by (auto simp add: js_set_fresh getQualityMenuItem_def split: if_splits)
    show ?thesis
      using Cons.IH[OF run d k] by simp
  qed
qed

lemma distinct_own_entries: "distinct obj \<Longrightarrow> distinct (own_entries obj)"
  by (auto simp add: own_entries_def)

lemma getLevelItems_distinct_values:
  assumes "getLevelItems levels this = (Return its, this')"
  shows "distinct (map (\<lambda>x. value (item x)) its)"
proof -
  obtain items' where run: "getLevelItems_loop levels [] this = (Return items', this')"
    and its: "its = map snd (own_entries items')"
    using assms by (auto simp add: getLevelItems_def split: prod.splits completion.splits)
  have inv: "distinct (map fst items') \<and> (\<forall>e\<in>set items'. fst e = js_to_string (value (item (snd e))))"
    using getLevelItems_loop_keys[OF run] by simp
  then have "distinct (map (\<lambda>e. js_to_string (value (item (snd e)))) items')"
    by (metis (mono_tags, lifting) map_eq_conv)
  then have "distinct (map (\<lambda>e. value (item (snd e))) items')"
    by (simp add: distinct_map inj_on_def)
  then have "distinct items'" and "inj_on (\<lambda>e. value (item (snd e))) (set items')"
    by (simp_all add: distinct_map)
  then have "distinct (map (\<lambda>e. value (item (snd e))) (own_entries items'))"
    by (simp add: distinct_map distinct_own_entries set_own_entries)
  then show ?thesis
    by (simp add: its comp_def)
qed

text \<open>
  C2. The claim says that two renditions with the same short side give one menu entry.
  \<^verbatim>\<open>getLevelItems\<close> keys the entries by \<^verbatim>\<open>value\<close>, which is the bandwidth: two
  renditions of 1280x720 at 2000000 and 3000000 bit/s give two entries, both labelled
  \<^verbatim>\<open>'720p'\<close>.
\<close>

theorem getLevelItems_same_short_side_two_entries:
  "map shortSide_spec same_size_levels = [Some 720, Some 720] \<and>
   fst (getLevelItems same_size_levels (demo_plugin same_size_levels NoPlaylists))
     = Return [\<lparr>item = \<lparr>label = Some ''720p'', value = Number 2000000, selected = None\<rparr>\<rparr>,
               \<lparr>item = \<lparr>label = Some ''720p'', value = Number 3000000, selected = None\<rparr>\<rparr>]"
  by (simp add: same_size_levels_def shortSide_spec_def menu_eval str_defs)

text \<open>
  C5. Whenever \<^verbatim>\<open>onAddQualityLevel\<close> builds its list, the list is not empty, its last
  entry has the value \<^verbatim>\<open>'auto'\<close>, and it is the only entry with that value; this list
  is what the button's item function returns afterwards. The list is built for every
  rendition list, provided the catalog is usable.
\<close>

theorem levelItems_ends_with_auto:
  "(levelItems this = (Return its, this') \<longrightarrow>
      its \<noteq> [] \<and> value (item (last its)) = StrAuto \<and>
      length (filter (\<lambda>x. value (item x) = StrAuto) its) = 1 \<and>
      (\<forall>b. qualityButton this = Some b \<longrightarrow>
         onAddQualityLevel this = (Return (), this'\<lparr>qualityButton := Some (b\<lparr>createItems := its\<rparr>)\<rparr>))) \<and>
   (qualityLevels (player this) \<noteq> None \<and> catalog_ok this \<longrightarrow>
      (\<exists>its this'. levelItems this = (Return its, this')))"
proof (intro conjI impI)
  assume run: "levelItems this = (Return its, this')"
  then obtain levels xs where g: "getLevelItems levels this = (Return xs, this')"
    and its: "its = array_sort compareItems xs @ [auto_item this]"
    using levelItems_shape by blast
  have "\<forall>x\<in>set xs. value (item x) \<noteq> StrAuto"
    using g by (rule getLevelItems_values) (rule js_of_not_auto)
  then have none: "filter (\<lambda>x. value (item x) = StrAuto) (array_sort compareItems xs) = []"
    by (simp add: filter_empty_conv set_array_sort)
  show "its \<noteq> []" by (simp add: its)
  show "value (item (last its)) = StrAuto"
    by (simp add: its auto_item_def getQualityMenuItem_def)
  show "length (filter (\<lambda>x. value (item x) = StrAuto) its) = 1"
    by (simp add: its none auto_item_def getQualityMenuItem_def)
  have "qualityButton this' = qualityButton this"
    using run levelItems_cache_only cache_only_fields(2) by blast
  then show "\<forall>b. qualityButton this = Some b \<longrightarrow>
      onAddQualityLevel this = (Return (), this'\<lparr>qualityButton := Some (b\<lparr>createItems := its\<rparr>)\<rparr>)"
    using run by (simp add: onAddQualityLevel_def)
next
  assume "qualityLevels (player this) \<noteq> None \<and> catalog_ok this"
  then show "\<exists>its this'. levelItems this = (Return its, this')"
    using levelItems_returns by blast
qed

text \<open>
  Witness: a list with a bandwidth-only rendition, which makes the plugin build the
  name map.
\<close>

theorem levelItems_ends_with_auto_witness:
  "qualityLevels (player (demo_plugin mixed_levels demo_manifest)) \<noteq> None \<and>
   catalog_ok (demo_plugin mixed_levels demo_manifest) \<and>
   values_of (fst (levelItems (demo_plugin mixed_levels demo_manifest)))
     = [Number 800000, Number 2000000, Number 5000000, StrAuto] \<and>
   fst (onAddQualityLevel (demo_plugin mixed_levels demo_manifest)) = Return ()"
proof -
  let ?s = "demo_plugin mixed_levels demo_manifest"
  have v: "values_of (fst (levelItems ?s)) = [Number 800000, Number 2000000, Number 5000000, StrAuto]"
    by (simp add: demo_defs demo_manifest_def mixed_levels_def catalog_eval menu_eval
          values_of_def str_defs)
  have ok: "qualityLevels (player ?s) \<noteq> None \<and> catalog_ok ?s"
    by (simp add: demo_defs demo_manifest_def catalog_eval catalog_ok_def null_entry_def)
  then obtain its this' where run: "levelItems ?s = (Return its, this')"
    using levelItems_ends_with_auto[of ?s] by blast
  obtain b where "qualityButton ?s = Some b"
    by (simp add: demo_defs)
  then have "onAddQualityLevel ?s = (Return (), this'\<lparr>qualityButton := Some (b\<lparr>createItems := its\<rparr>)\<rparr>)"
    using run levelItems_ends_with_auto[of ?s its this'] by blast
  with v ok show ?thesis by simp
qed

text \<open>
  C6, as amended. When every rendition has a bandwidth, the entries before the trailing
  \<^verbatim>\<open>Auto\<close> entry are in non-decreasing order of value.
\<close>

theorem levelItems_sorted:
  assumes "qualityLevels (player this) = Some levels"
    and "list_all (\<lambda>r. bandwidth r \<noteq> None) levels"
    and "levelItems this = (Return its, this')"
  shows "sorted_wrt (\<lambda>a b. js_le (value (item a)) (value (item b))) (butlast its)"
proof -
  obtain xs where g: "getLevelItems levels this = (Return xs, this')"
    and its: "its = array_sort compareItems xs @ [auto_item this]"
    using levelItems_shape[OF assms(3)] assms(1) by auto
  have "\<And>r. r \<in> set levels \<Longrightarrow> \<exists>n. js_of (bandwidth r) = Number n"
    using assms(2) by (auto simp add: list_all_iff)
  with g have "\<forall>x\<in>set xs. \<exists>n. value (item x) = Number n"
    by (rule getLevelItems_values)
  then have "list_all (\<lambda>x. \<exists>n. value (item x) = Number n) xs"
    by (simp add: list_all_iff)
  then show ?thesis
    by (simp add: its array_sort_compareItems)
qed

text \<open>
  Witness: the values before \<^verbatim>\<open>Auto\<close> are 800000, 2000000, 5000000.
\<close>

theorem levelItems_sorted_witness:
  "qualityLevels (player (demo_plugin mixed_levels demo_manifest)) = Some mixed_levels \<and>
   list_all (\<lambda>r. bandwidth r \<noteq> None) mixed_levels \<and>
   butlast (values_of (fst (levelItems (demo_plugin mixed_levels demo_manifest))))
     = [Number 800000, Number 2000000, Number 5000000] \<and>
   sorted_wrt (\<lambda>a b. js_le (value (item a)) (value (item b)))
     (butlast (case fst (levelItems (demo_plugin mixed_levels demo_manifest)) of
                 Return its \<Rightarrow> its | Throw e \<Rightarrow> []))"
proof -
  let ?s = "demo_plugin mixed_levels demo_manifest"
  have l: "qualityLevels (player ?s) = Some mixed_levels"
    by (simp add: demo_defs)
  have b: "list_all (\<lambda>r. bandwidth r \<noteq> None) mixed_levels"
    by (simp add: mixed_levels_def)
  have v: "butlast (values_of (fst (levelItems ?s))) = [Number 800000, Number 2000000, Number 5000000]"
    by (simp add: demo_defs demo_manifest_def mixed_levels_def catalog_eval menu_eval
          values_of_def str_defs)
  obtain c this' where run: "levelItems ?s = (c, this')"
    by (cases "levelItems ?s")
  show ?thesis
  proof (cases c)
    case (Return its)
    with run levelItems_sorted[OF l b, of its this'] l b v show ?thesis by simp
  next
    case (Throw e)
    with run l b v show ?thesis by simp
  qed
qed

text \<open>
  C6 as stated fails when a rendition has no bandwidth. Its value is \<^verbatim>\<open>undefined\<close>,
  which the comparator reports equal to every number, so the comparator is not
  consistent and the entries around it keep the order of \<^verbatim>\<open>Object.keys\<close>. For bit
  rates that are not array indices that is insertion order: 5000000000 stays before
  4500000000.
\<close>

theorem levelItems_unsorted_counterexample:
  "values_of (fst (levelItems (demo_plugin unsorted_levels NoPlaylists)))
     = [Number 5000000000, Undefined, Number 4500000000, StrAuto] \<and>
   \<not> sorted_wrt (\<lambda>a b. \<not> js_lt b a)
        (butlast (values_of (fst (levelItems (demo_plugin unsorted_levels NoPlaylists)))))"
proof -
  have "values_of (fst (levelItems (demo_plugin unsorted_levels NoPlaylists)))
     = [Number 5000000000, Undefined, Number 4500000000, StrAuto]"
    by (simp add: demo_defs unsorted_levels_def catalog_eval menu_eval values_of_def str_defs)
  then show ?thesis by simp
qed

end
